theory Spec2Isabelle
  imports Main "HOL-Library.Word" "HOL-Library.Multiset"
begin

section \<open>Common conventions\<close>

text \<open>
  Go's \<open>int\<close> is taken at its 64-bit width (\<open>64 word\<close>, read with \<open>sint\<close>, compared
  with the signed orders); \<open>int32\<close> is \<open>32 word\<close>. Instants (\<open>time.Time\<close>) and
  durations (\<open>time.Duration\<close>) are nanosecond counts on the integer line. Every
  \<open>time.Now()\<close> of the source is an explicit argument of the model. A Go \<open>error\<close> is
  its message; \<open>nil\<close> is \<open>None\<close>. Locks are not modelled: every operation runs alone.
  The library's clamping of the result of \<open>time.Since\<close> at 64 bits (about 292 years)
  is outside the model. Calls into the metrics package only feed the exporter and are left out.
\<close>

type_synonym go_int = "64 word"
type_synonym instant = int
type_synonym duration = int
type_synonym err = "string option"

section \<open>Circuit breaker (internal/pkg/circuitbreaker/circuitbreaker.go)\<close>

datatype State = Closed | Open | HalfOpen

record CircuitBreaker =
  failureThreshold :: go_int
  timeout :: duration
  resetTimeout :: duration
  successThreshold :: go_int
  state :: State
  failureCount :: go_int
  lastFailure :: instant
  trippedTime :: instant
  successCount :: go_int
  requestCount :: go_int
  totalSuccess :: go_int
  totalFailure :: go_int
  serviceName :: string

record Config =
  FailureThreshold :: go_int
  Timeout :: duration
  ResetTimeout :: duration
  SuccessThreshold :: go_int
  ServiceName :: string

definition second :: duration where
  "second = 1000000000"

definition DefaultConfig :: Config where
  "DefaultConfig =
     \<lparr>FailureThreshold = 5, Timeout = second * 60, ResetTimeout = second * 30,
      SuccessThreshold = 1, ServiceName = ''unknown''\<rparr>"

text \<open>The zero \<open>time.Time\<close> of the fields the constructor leaves out.\<close>

definition zeroTime :: instant where
  "zeroTime = 0"

text \<open>\<open>None\<close> is the nil \<open>*Config\<close>.\<close>

definition NewCircuitBreaker :: "Config option \<Rightarrow> CircuitBreaker" where
  "NewCircuitBreaker config =
     (let config = (case config of None \<Rightarrow> DefaultConfig | Some c \<Rightarrow> c) in
      \<lparr>failureThreshold = FailureThreshold config,
       timeout = Timeout config,
       resetTimeout = ResetTimeout config,
       successThreshold = SuccessThreshold config,
       state = Closed,
       failureCount = 0,
       lastFailure = zeroTime,
       trippedTime = zeroTime,
       successCount = 0,
       requestCount = 0,
       totalSuccess = 0,
       totalFailure = 0,
       serviceName = ServiceName config\<rparr>)"

text \<open>\<open>time.Since(t)\<close> read at the instant \<open>now\<close>.\<close>

definition Since :: "instant \<Rightarrow> instant \<Rightarrow> duration" where
  "Since now t = now - t"

text \<open>\<open>canExecute\<close> answers and, on the lazy Open-to-HalfOpen move, changes the breaker.\<close>

definition canExecute :: "CircuitBreaker \<Rightarrow> instant \<Rightarrow> bool \<times> CircuitBreaker" where
  "canExecute cb now =
     (case state cb of
        Closed \<Rightarrow> (True, cb)
      | Open \<Rightarrow>
          if resetTimeout cb \<le> Since now (trippedTime cb)
          then (True, cb\<lparr>state := HalfOpen, successCount := 0\<rparr>)
          else (False, cb)
      | HalfOpen \<Rightarrow> (successCount cb <s successThreshold cb, cb))"

text \<open>
  \<open>updateState\<close>; \<open>tFail\<close> and \<open>tTrip\<close> are the readings of its two \<open>time.Now()\<close>
  calls. A failure in state Open changes no state: the \<open>switch\<close> has no such case.
\<close>

definition updateState :: "CircuitBreaker \<Rightarrow> err \<Rightarrow> instant \<Rightarrow> instant \<Rightarrow> CircuitBreaker" where
  "updateState cb0 e tFail tTrip =
     (let cb = cb0\<lparr>requestCount := requestCount cb0 + 1\<rparr> in
      case e of
        Some msg \<Rightarrow>
          (let cb = cb\<lparr>failureCount := failureCount cb + 1,
                       totalFailure := totalFailure cb + 1,
                       lastFailure := tFail\<rparr> in
           case state cb of
             Closed \<Rightarrow>
               if failureThreshold cb \<le>s failureCount cb
               then cb\<lparr>state := Open, trippedTime := tTrip\<rparr>
               else cb
           | HalfOpen \<Rightarrow> cb\<lparr>state := Open, trippedTime := tTrip\<rparr>
           | Open \<Rightarrow> cb)
      | None \<Rightarrow>
          (let cb = cb\<lparr>totalSuccess := totalSuccess cb + 1\<rparr> in
           case state cb of
             Closed \<Rightarrow> cb\<lparr>failureCount := 0\<rparr>
           | HalfOpen \<Rightarrow>
               (let cb = cb\<lparr>successCount := successCount cb + 1\<rparr> in
                if successThreshold cb \<le>s successCount cb
                then cb\<lparr>state := Closed, failureCount := 0\<rparr>
                else cb)
           | Open \<Rightarrow> cb))"

text \<open>
  The protected function is opaque: it acts on a world \<open>'w\<close> outside the breaker and
  returns its error. \<open>Execute\<close> returns the error, the breaker and the world; the world
  is untouched exactly when the function was not called. \<open>now\<close> is the reading during
  the admission check.
\<close>

type_synonym 'w protected = "'w \<Rightarrow> err \<times> 'w"

definition Execute ::
  "CircuitBreaker \<Rightarrow> 'w protected \<Rightarrow> 'w \<Rightarrow> instant \<Rightarrow> instant \<Rightarrow> instant
     \<Rightarrow> err \<times> CircuitBreaker \<times> 'w" where
  "Execute cb0 fn w now tFail tTrip =
     (case canExecute cb0 now of
        (False, cb) \<Rightarrow> (Some ''circuit breaker is open'', cb, w)
      | (True, cb) \<Rightarrow>
          (let cb = cb\<lparr>requestCount := requestCount cb + 1\<rparr>;
               (e, w') = fn w;
               cb = updateState cb e tFail tTrip
           in (e, cb, w')))"

text \<open>A driver: the calls of a list made one after another on one breaker.\<close>

fun ExecuteAll ::
  "CircuitBreaker \<Rightarrow> ('w protected \<times> instant \<times> instant \<times> instant) list \<Rightarrow> 'w
     \<Rightarrow> CircuitBreaker \<times> 'w" where
  "ExecuteAll cb [] w = (cb, w)"
| "ExecuteAll cb ((fn, now, tFail, tTrip) # cs) w =
     (case Execute cb fn w now tFail tTrip of (e, cb', w') \<Rightarrow> ExecuteAll cb' cs w')"

section \<open>Sliding-window limiter (package ratelimit)\<close>

text \<open>
  \<open>records\<close> is the Go map from admission key to the accepted instants; a key the map
  does not hold reads as the empty slice. \<open>window\<close> is the \<open>time.Duration\<close> as the
  64-bit integer it is, because the code negates it.
\<close>

record SlidingWindowLimiter =
  limit :: go_int
  window :: "64 word"
  records :: "string \<rightharpoonup> instant list"

definition NewSlidingWindowLimiter :: "go_int \<Rightarrow> 64 word \<Rightarrow> SlidingWindowLimiter" where
  "NewSlidingWindowLimiter lim win = \<lparr>limit = lim, window = win, records = Map.empty\<rparr>"

text \<open>
  The pruning loop of \<open>AllowWithKey\<close>: \<open>validRecords\<close> collects, in order, the
  records \<open>t\<close> with \<open>t.After(cutoff)\<close>.
\<close>

fun pruneRecords :: "instant \<Rightarrow> instant list \<Rightarrow> instant list \<Rightarrow> instant list" where
  "pruneRecords cutoff validRecords [] = validRecords"
| "pruneRecords cutoff validRecords (t # ts) =
     pruneRecords cutoff (if cutoff < t then validRecords @ [t] else validRecords) ts"

definition recordsOf :: "SlidingWindowLimiter \<Rightarrow> string \<Rightarrow> instant list" where
  "recordsOf s key = (case records s key of None \<Rightarrow> [] | Some ts \<Rightarrow> ts)"

text \<open>
  \<open>now\<close> is the reading of \<open>time.Now()\<close>. The cutoff is \<open>now.Add(-s.window)\<close>: the
  negation is Go's on \<open>int64\<close> and wraps at the least value, and \<open>Add\<close> moves the
  instant by the signed result. A rejected call leaves the map as it was.
\<close>

definition AllowWithKey ::
  "SlidingWindowLimiter \<Rightarrow> string \<Rightarrow> instant \<Rightarrow> bool \<times> SlidingWindowLimiter" where
  "AllowWithKey s key now =
     (let cutoff = now + sint (- window s);
          validRecords = pruneRecords cutoff [] (recordsOf s key)
      in if sint (limit s) \<le> int (length validRecords) then (False, s)
         else (True, s\<lparr>records := (records s)(key \<mapsto> validRecords @ [now])\<rparr>))"

definition Allow :: "SlidingWindowLimiter \<Rightarrow> instant \<Rightarrow> bool \<times> SlidingWindowLimiter" where
  "Allow s now = AllowWithKey s ''default'' now"



section \<open>Load balancer (internal/pkg/loadbalancer/loadbalancer.go)\<close>

record ServiceInstance =
  Address :: string
  Weight :: go_int
  Connections :: "64 word"
  LastActive :: instant
  Status :: string

text \<open>
  A run-time panic is a value of its own, apart from the Go errors a call returns.
  \<open>IndexOutOfRange i n\<close> is the index \<open>i\<close> into a slice of length \<open>n\<close>.
\<close>

datatype panic = IntegerDivideByZero | IndexOutOfRange int nat

datatype failure = Error string | Panic panic

text \<open>
  A \<open>Strategy\<close> is its \<open>Select\<close> method: it gets the instance list and the state
  \<open>'st\<close> the strategy object carries, and returns the instance (or panics) and the
  state.
\<close>

type_synonym 'st Strategy =
  "ServiceInstance list \<Rightarrow> 'st \<Rightarrow> (panic + ServiceInstance) \<times> 'st"

text \<open>Of the balancer, \<open>GetServiceWithStrategy\<close> reads the service map only.\<close>

record EtcdLoadBalancer =
  serviceMap :: "string \<rightharpoonup> ServiceInstance list"

record RoundRobinStrategy =
  indexMap :: "string \<rightharpoonup> 32 word"

text \<open>The loop of \<open>GetServiceWithStrategy\<close> that collects \<open>healthyInstances\<close>.\<close>

fun filterHealthy :: "ServiceInstance list \<Rightarrow> ServiceInstance list \<Rightarrow> ServiceInstance list" where
  "filterHealthy healthyInstances [] = healthyInstances"
| "filterHealthy healthyInstances (instance # instances) =
     filterHealthy
       (if Status instance = ''active'' \<or> Status instance = ''''
        then healthyInstances @ [instance] else healthyInstances)
       instances"

text \<open>
  \<open>selected\<close> is a copy: the connection count and the \<open>LastActive\<close> stamp written
  to it do not reach the service map. \<open>now\<close> is the reading of \<open>time.Now()\<close>.
\<close>

definition GetServiceWithStrategy ::
  "EtcdLoadBalancer \<Rightarrow> string \<Rightarrow> 'st Strategy \<Rightarrow> 'st \<Rightarrow> instant
     \<Rightarrow> (failure + string) \<times> 'st" where
  "GetServiceWithStrategy lb name strategy st now =
     (case serviceMap lb name of
        None \<Rightarrow> (Inl (Error (''service not found: '' @ name)), st)
      | Some instances \<Rightarrow>
          if length instances = 0
          then (Inl (Error (''service not found: '' @ name)), st)
          else
            (let healthyInstances = filterHealthy [] instances in
             if length healthyInstances = 0
             then (Inl (Error (''no healthy instances for service: '' @ name)), st)
             else
               (case strategy healthyInstances st of
                  (Inl p, st') \<Rightarrow> (Inl (Panic p), st')
                | (Inr selected, st') \<Rightarrow>
                    (let selected = selected\<lparr>Connections := Connections selected + 1,
                                              LastActive := now\<rparr>
                     in (Inr (Address selected), st')))))"

text \<open>Go's \<open>%\<close> on integers truncates towards zero; the divisor is not 0 here.\<close>

definition go_rem :: "int \<Rightarrow> int \<Rightarrow> int" where
  "go_rem a b = sgn a * (\<bar>a\<bar> mod \<bar>b\<bar>)"

text \<open>The key loop of \<open>Select\<close>: the addresses, each followed by a comma.\<close>

fun instancesKey :: "string \<Rightarrow> ServiceInstance list \<Rightarrow> string" where
  "instancesKey key [] = key"
| "instancesKey key (instance # instances) =
     instancesKey (key @ Address instance @ '','') instances"

text \<open>Indexing a slice: Go panics outside \<open>0 .. len - 1\<close>.\<close>

definition index_at :: "ServiceInstance list \<Rightarrow> int \<Rightarrow> panic + ServiceInstance" where
  "index_at instances i =
     (if 0 \<le> i \<and> i < int (length instances) then Inr (instances ! nat i)
      else Inl (IndexOutOfRange i (length instances)))"

text \<open>
  \<open>RoundRobinStrategy.Select\<close>. The counter behind the key is an \<open>int32\<close>:
  \<open>atomic.AddInt32\<close> wraps. \<open>int(...)\<close> widens the new value to 64 bits with its
  sign, so \<open>currentIndex - 1\<close> is exact. \<open>%\<close> by a zero length panics.
\<close>

definition RoundRobinStrategy_Select :: "RoundRobinStrategy Strategy" where
  "RoundRobinStrategy_Select instances rrs =
     (let key = instancesKey '''' instances;
          (index, rrs) =
            (case indexMap rrs key of
               Some index \<Rightarrow> (index, rrs)
             | None \<Rightarrow> (0, rrs\<lparr>indexMap := (indexMap rrs)(key \<mapsto> 0)\<rparr>));
          index = index + 1;
          rrs = rrs\<lparr>indexMap := (indexMap rrs)(key \<mapsto> index)\<rparr>;
          currentIndex = sint index
      in if length instances = 0 then (Inl IntegerDivideByZero, rrs)
         else (index_at instances (go_rem (currentIndex - 1) (int (length instances))), rrs))"

text \<open>\<open>LeastConnectionsStrategy.Select\<close>; \<open>ServiceInstance{}\<close> is the zero instance.\<close>

definition zeroInstance :: ServiceInstance where
  "zeroInstance =
     \<lparr>Address = '''', Weight = 0, Connections = 0, LastActive = zeroTime, Status = ''''\<rparr>"

fun leastLoop ::
  "64 word \<Rightarrow> ServiceInstance \<Rightarrow> ServiceInstance list \<Rightarrow> ServiceInstance" where
  "leastLoop minConnections selected [] = selected"
| "leastLoop minConnections selected (instance # instances) =
     (if Connections instance <s minConnections
      then leastLoop (Connections instance) instance instances
      else leastLoop minConnections selected instances)"

definition LeastConnectionsStrategy_Select :: "unit Strategy" where
  "LeastConnectionsStrategy_Select instances st =
     (case instances of
        [] \<Rightarrow> (Inr zeroInstance, st)
      | first # rest \<Rightarrow> (Inr (leastLoop (Connections first) first rest), st))"

text \<open>
  The service map is an unexported field. \<open>NewEtcdLoadBalancer\<close> makes it empty, and it
  is written by \<open>refreshServices\<close> and \<open>HealthCheck\<close> only; \<open>GetServiceMap\<close> returns a
  copy. The etcd client, the index map, the balance type and \<open>lastUpdate\<close> are not part of
  the model.
\<close>

definition NewEtcdLoadBalancer :: EtcdLoadBalancer where
  "NewEtcdLoadBalancer = \<lparr>serviceMap = Map.empty\<rparr>"

text \<open>
  \<open>strings.Split\<close> with a one-byte separator: the empty string splits into one empty part.
\<close>

fun splitOn :: "char \<Rightarrow> string \<Rightarrow> string list" where
  "splitOn sep [] = [[]]"
| "splitOn sep (c # cs) =
     (if c = sep then [] # splitOn sep cs
      else (case splitOn sep cs of
              [] \<Rightarrow> [[c]]
            | part # parts \<Rightarrow> (c # part) # parts))"

text \<open>
  The name under which \<open>refreshServices\<close> files a key: \<open>key[9:]\<close> up to the first slash.
\<close>

definition serviceNameOf :: "string \<Rightarrow> string" where
  "serviceNameOf key =
     (if 9 < length key
      then (case splitOn (CHR ''/'') (drop 9 key) of [] \<Rightarrow> ''default'' | part # parts \<Rightarrow> part)
      else ''default'')"

text \<open>
  \<open>atoi\<close> stands for \<open>strconv.Atoi\<close>: \<open>None\<close> is its error.
\<close>

definition weightOf :: "(string \<Rightarrow> go_int option) \<Rightarrow> string \<Rightarrow> go_int" where
  "weightOf atoi v =
     (let addrParts = splitOn (CHR '':'') v in
      if length addrParts = 3
      then (case atoi (addrParts ! 2) of Some w \<Rightarrow> w | None \<Rightarrow> 1)
      else 1)"

text \<open>
  The search of the old instances for the address: the first match is taken.
\<close>

fun carriedOver ::
  "string \<Rightarrow> ServiceInstance list \<Rightarrow> (64 word \<times> instant \<times> string) option" where
  "carriedOver v [] = None"
| "carriedOver v (oldInstance # oldInstances) =
     (if Address oldInstance = v
      then Some (Connections oldInstance, LastActive oldInstance, Status oldInstance)
      else carriedOver v oldInstances)"

text \<open>
  The loop over \<open>resp.Kvs\<close>, building the new map \<open>m\<close> by appending. \<open>clock n\<close> is the
  reading of \<open>time.Now()\<close> in iteration \<open>n\<close>.
\<close>

fun refreshLoop ::
  "(string \<Rightarrow> go_int option) \<Rightarrow> (string \<rightharpoonup> ServiceInstance list)
     \<Rightarrow> (nat \<Rightarrow> instant) \<Rightarrow> nat
     \<Rightarrow> (string \<times> string) list \<Rightarrow> (string \<rightharpoonup> ServiceInstance list)
     \<Rightarrow> (string \<rightharpoonup> ServiceInstance list)" where
  "refreshLoop atoi oldServiceMap clock n [] m = m"
| "refreshLoop atoi oldServiceMap clock n ((key, v) # kvs) m =
     (let name = serviceNameOf key;
          weight = weightOf atoi v;
          (connections, lastActive, status) =
            (case oldServiceMap name of
               None \<Rightarrow> (0, clock n, ''active'')
             | Some oldInstances \<Rightarrow>
                 (case carriedOver v oldInstances of
                    None \<Rightarrow> (0, clock n, ''active'')
                  | Some old \<Rightarrow> old));
          instance = \<lparr>Address = v, Weight = weight, Connections = connections,
                      LastActive = lastActive, Status = status\<rparr>
      in refreshLoop atoi oldServiceMap clock (Suc n) kvs
           (m(name \<mapsto> (case m name of None \<Rightarrow> [] | Some instances \<Rightarrow> instances) @ [instance])))"

text \<open>
  \<open>resp\<close> is the answer of the registry: \<open>None\<close> when the request fails, and then the map
  is left as it is.
\<close>

definition refreshServices ::
  "(string \<Rightarrow> go_int option) \<Rightarrow> EtcdLoadBalancer \<Rightarrow> (string \<times> string) list option
     \<Rightarrow> (nat \<Rightarrow> instant) \<Rightarrow> EtcdLoadBalancer" where
  "refreshServices atoi lb resp clock =
     (case resp of
        None \<Rightarrow> lb
      | Some kvs \<Rightarrow> lb\<lparr>serviceMap := refreshLoop atoi (serviceMap lb) clock 0 kvs Map.empty\<rparr>)"

text \<open>
  \<open>isInstanceHealthy\<close> is a TCP dial: its outcome is a parameter, and may differ from one
  probe to the next (it is given the service name and the position probed).
\<close>

fun checkInstances ::
  "(string \<Rightarrow> nat \<Rightarrow> string \<Rightarrow> bool) \<Rightarrow> string \<Rightarrow> nat \<Rightarrow> ServiceInstance list
     \<Rightarrow> ServiceInstance list" where
  "checkInstances isInstanceHealthy name i [] = []"
| "checkInstances isInstanceHealthy name i (instance # instances) =
     instance\<lparr>Status :=
        (if isInstanceHealthy name i (Address instance) then ''active'' else ''unhealthy'')\<rparr>
     # checkInstances isInstanceHealthy name (Suc i) instances"

definition HealthCheck ::
  "EtcdLoadBalancer \<Rightarrow> (string \<Rightarrow> nat \<Rightarrow> string \<Rightarrow> bool) \<Rightarrow> EtcdLoadBalancer" where
  "HealthCheck lb isInstanceHealthy =
     lb\<lparr>serviceMap := (\<lambda>name.
        map_option (checkInstances isInstanceHealthy name 0) (serviceMap lb name))\<rparr>"

text \<open>
  What happens to a balancer between two calls of \<open>GetServiceWithStrategy\<close>: the watch loop
  refreshes the map, or a health check runs.
\<close>

datatype lbEvent =
  Refreshed "(string \<times> string) list option" "nat \<Rightarrow> instant"
  | HealthChecked "string \<Rightarrow> nat \<Rightarrow> string \<Rightarrow> bool"

fun lbStep :: "(string \<Rightarrow> go_int option) \<Rightarrow> EtcdLoadBalancer \<Rightarrow> lbEvent \<Rightarrow> EtcdLoadBalancer" where
  "lbStep atoi lb (Refreshed resp clock) = refreshServices atoi lb resp clock"
| "lbStep atoi lb (HealthChecked isInstanceHealthy) = HealthCheck lb isInstanceHealthy"

fun lbAfter :: "(string \<Rightarrow> go_int option) \<Rightarrow> EtcdLoadBalancer \<Rightarrow> lbEvent list \<Rightarrow> EtcdLoadBalancer" where
  "lbAfter atoi lb [] = lb"
| "lbAfter atoi lb (e # es) = lbAfter atoi (lbStep atoi lb e) es"

text \<open>
  Every list of the map is non-empty, and every status is "active" or "unhealthy".
\<close>

definition statusKnown :: "(string \<rightharpoonup> ServiceInstance list) \<Rightarrow> bool" where
  "statusKnown m =
     (\<forall>name instances. m name = Some instances \<longrightarrow>
        instances \<noteq> [] \<and>
        (\<forall>i \<in> set instances. Status i = ''active'' \<or> Status i = ''unhealthy''))"

section \<open>Tiered cache (package cache: local.go, redis.go, MultiLevelCache)\<close>

subsection \<open>Values and the JSON codec\<close>

text \<open>
  The cache stores \<open>interface{}\<close> values and reads them back through
  \<open>encoding/json\<close>. The model covers the values \<open>nil\<close>, booleans and strings of
  ASCII characters from the space on, with tab, line feed and carriage return, and
  three kinds of \<open>dest\<close> pointer with the content they point to: \<open>*bool\<close>,
  \<open>*string\<close> and \<open>*interface{}\<close>. The codec below is the library's on these:
  \<open>Marshal\<close> with its default HTML escaping, \<open>Unmarshal\<close> with the rule that
  \<open>null\<close> leaves a non-pointer target as it is. Other characters, JSON numbers, arrays
  and objects are \<open>OutsideFragment\<close>: the model says nothing about them.
\<close>

datatype gval = GNil | GBool bool | GString string

datatype dest = PBool bool | PString string | PAny gval

text \<open>
  \<open>ErrKeyNotFound\<close> is the package's error; \<open>RedisNil\<close> is \<open>redis.Nil\<close>;
  \<open>RedisUnavailable\<close> stands for any other error of the client; \<open>NilPointerPanic\<close>
  is the panic of a call through a nil client.
\<close>

datatype cache_error =
  ErrKeyNotFound | CacheInstanceNil | RedisNil | RedisUnavailable
  | SyntaxError | UnmarshalTypeError | NilPointerPanic | OutsideFragment

definition dquote :: char where "dquote = CHR 0x22"
definition backslash :: char where "backslash = CHR 0x5C"

definition inFragment :: "char \<Rightarrow> bool" where
  "inFragment c =
     (let n = of_char c :: nat in (32 \<le> n \<and> n < 128) \<or> n = 9 \<or> n = 10 \<or> n = 13)"

definition escapeChar :: "char \<Rightarrow> string" where
  "escapeChar c =
     (if c = dquote then [backslash, dquote]
      else if c = backslash then [backslash, backslash]
      else if c = CHR 0x0A then [backslash, CHR ''n'']
      else if c = CHR 0x0D then [backslash, CHR ''r'']
      else if c = CHR 0x09 then [backslash, CHR ''t'']
      else if c = CHR ''<'' then backslash # ''u003c''
      else if c = CHR ''>'' then backslash # ''u003e''
      else if c = CHR ''&'' then backslash # ''u0026''
      else [c])"

definition json_Marshal :: "gval \<Rightarrow> cache_error + string" where
  "json_Marshal v =
     (case v of
        GNil \<Rightarrow> Inr ''null''
      | GBool b \<Rightarrow> Inr (if b then ''true'' else ''false'')
      | GString s \<Rightarrow>
          if list_all inFragment s
          then Inr ([dquote] @ concat (map escapeChar s) @ [dquote])
          else Inl OutsideFragment)"

text \<open>Decoding: the body of a string literal up to its closing quote, which must end the text.\<close>

definition hexDigit :: "char \<Rightarrow> nat option" where
  "hexDigit c =
     (let n = of_char c :: nat in
      if 48 \<le> n \<and> n \<le> 57 then Some (n - 48)
      else if 97 \<le> n \<and> n \<le> 102 then Some (n - 87)
      else if 65 \<le> n \<and> n \<le> 70 then Some (n - 55)
      else None)"

definition hex4 :: "char \<Rightarrow> char \<Rightarrow> char \<Rightarrow> char \<Rightarrow> nat option" where
  "hex4 a b c d =
     (case (hexDigit a, hexDigit b, hexDigit c, hexDigit d) of
        (Some w, Some x, Some y, Some z) \<Rightarrow> Some (((w * 16 + x) * 16 + y) * 16 + z)
      | _ \<Rightarrow> None)"

fun unquoteBody :: "string \<Rightarrow> cache_error + string" where
  "unquoteBody [] = Inl SyntaxError"
| "unquoteBody [c] = (if c = dquote then Inr [] else Inl SyntaxError)"
| "unquoteBody (c # e # cs) =
     (if c = dquote then Inl SyntaxError
      else if c = backslash then
        (if e = CHR ''u'' then
           (case cs of
              w # x # y # z # rest \<Rightarrow>
                (case hex4 w x y z of
                   None \<Rightarrow> Inl SyntaxError
                 | Some n \<Rightarrow>
                     if n < 128 then map_sum id ((#) (char_of n)) (unquoteBody rest)
                     else Inl OutsideFragment)
            | _ \<Rightarrow> Inl SyntaxError)
         else if e = dquote \<or> e = backslash \<or> e = CHR ''/'' then
           map_sum id ((#) e) (unquoteBody cs)
         else if e = CHR ''n'' then map_sum id ((#) (CHR 0x0A)) (unquoteBody cs)
         else if e = CHR ''r'' then map_sum id ((#) (CHR 0x0D)) (unquoteBody cs)
         else if e = CHR ''t'' then map_sum id ((#) (CHR 0x09)) (unquoteBody cs)
         else if e = CHR ''b'' then map_sum id ((#) (CHR 0x08)) (unquoteBody cs)
         else if e = CHR ''f'' then map_sum id ((#) (CHR 0x0C)) (unquoteBody cs)
         else Inl SyntaxError)
      else if (of_char c :: nat) < 32 then Inl SyntaxError
      else if 128 \<le> (of_char c :: nat) then Inl OutsideFragment
      else map_sum id ((#) c) (unquoteBody (e # cs)))"

definition isSpace :: "char \<Rightarrow> bool" where
  "isSpace c = (c = CHR '' '' \<or> c = CHR 0x09 \<or> c = CHR 0x0A \<or> c = CHR 0x0D)"

definition trimSpace :: "string \<Rightarrow> string" where
  "trimSpace s = rev (dropWhile isSpace (rev (dropWhile isSpace s)))"

definition json_parse :: "string \<Rightarrow> cache_error + gval" where
  "json_parse text =
     (let t = trimSpace text in
      if t = ''null'' then Inr GNil
      else if t = ''true'' then Inr (GBool True)
      else if t = ''false'' then Inr (GBool False)
      else
        (case t of
           [] \<Rightarrow> Inl SyntaxError
         | c # cs \<Rightarrow>
             if c = dquote then map_sum id GString (unquoteBody cs)
             else if c \<in> set ''-0123456789[{'' then Inl OutsideFragment
             else Inl SyntaxError))"

text \<open>Storing a decoded value through the \<open>dest\<close> pointer.\<close>

fun storeInto :: "gval \<Rightarrow> dest \<Rightarrow> cache_error + dest" where
  "storeInto v (PAny old) = Inr (PAny v)"
| "storeInto GNil d = Inr d"
| "storeInto (GBool b) (PBool old) = Inr (PBool b)"
| "storeInto (GString s) (PString old) = Inr (PString s)"
| "storeInto (GBool b) (PString old) = Inl UnmarshalTypeError"
| "storeInto (GString s) (PBool old) = Inl UnmarshalTypeError"

definition json_Unmarshal :: "string \<Rightarrow> dest \<Rightarrow> cache_error + dest" where
  "json_Unmarshal text d =
     (case json_parse text of Inl e \<Rightarrow> Inl e | Inr v \<Rightarrow> storeInto v d)"

subsection \<open>Local cache (internal/pkg/cache/local.go)\<close>

text \<open>
  The Go cache keeps a recency list of elements, each holding one entry, and a map from
  key to element. An element is named here by the key of its entry: \<open>evictList\<close> is
  the list of elements front first, \<open>cache\<close> gives the entry behind a key. The entry's
  fields \<open>key\<close> and \<open>value\<close> are \<open>entryKey\<close> and \<open>entryValue\<close>.
\<close>

record cacheEntry =
  entryKey :: string
  entryValue :: gval
  expiresAt :: instant

record LocalCache =
  capacity :: go_int
  ttl :: duration
  cache :: "string \<rightharpoonup> cacheEntry"
  evictList :: "string list"

definition NewLocalCache :: "go_int \<Rightarrow> duration \<Rightarrow> LocalCache" where
  "NewLocalCache cap t = \<lparr>capacity = cap, ttl = t, cache = Map.empty, evictList = []\<rparr>"

text \<open>\<open>removeElement\<close> unlinks the element and deletes its entry's key from the map.\<close>

definition removeElement :: "LocalCache \<Rightarrow> string \<Rightarrow> LocalCache" where
  "removeElement l element =
     l\<lparr>evictList := remove1 element (evictList l), cache := (cache l)(element := None)\<rparr>"

text \<open>\<open>list.MoveToFront\<close>: nothing happens for an element that is not in the list.\<close>

definition MoveToFront :: "string list \<Rightarrow> string \<Rightarrow> string list" where
  "MoveToFront xs element = (if element \<in> set xs then element # remove1 element xs else xs)"

definition evict :: "LocalCache \<Rightarrow> LocalCache" where
  "evict l = (case evictList l of [] \<Rightarrow> l | _ # _ \<Rightarrow> removeElement l (last (evictList l)))"

text \<open>
  \<open>Get\<close> returns the error, or the content \<open>dest\<close> points to afterwards; the value
  goes through \<open>Marshal\<close> and \<open>Unmarshal\<close> on its way. \<open>now\<close> is the reading of
  \<open>time.Now()\<close>.
\<close>

definition LocalCache_Get ::
  "LocalCache \<Rightarrow> string \<Rightarrow> dest \<Rightarrow> instant \<Rightarrow> (cache_error + dest) \<times> LocalCache" where
  "LocalCache_Get l key d now =
     (case cache l key of
        None \<Rightarrow> (Inl ErrKeyNotFound, l)
      | Some entry \<Rightarrow>
          if expiresAt entry < now then (Inl ErrKeyNotFound, removeElement l key)
          else
            (let l = l\<lparr>evictList := MoveToFront (evictList l) key\<rparr> in
             case json_Marshal (entryValue entry) of
               Inl e \<Rightarrow> (Inl e, l)
             | Inr data \<Rightarrow> (json_Unmarshal data d, l)))"

text \<open>\<open>Set\<close>, \<open>Delete\<close> and \<open>Exists\<close> return no error but \<open>nil\<close>; the model returns the cache.\<close>

definition LocalCache_Set ::
  "LocalCache \<Rightarrow> string \<Rightarrow> gval \<Rightarrow> duration \<Rightarrow> instant \<Rightarrow> LocalCache" where
  "LocalCache_Set l key v expiration now =
     (case cache l key of
        Some entry \<Rightarrow>
          l\<lparr>evictList := MoveToFront (evictList l) key,
            cache := (cache l)(key \<mapsto> entry\<lparr>entryValue := v, expiresAt := now + expiration\<rparr>)\<rparr>
      | None \<Rightarrow>
          (let l = (if sint (capacity l) \<le> int (length (evictList l)) then evict l else l);
               entry = \<lparr>entryKey = key, entryValue = v, expiresAt = now + expiration\<rparr>
           in l\<lparr>evictList := key # evictList l, cache := (cache l)(key \<mapsto> entry)\<rparr>))"

definition LocalCache_Delete :: "LocalCache \<Rightarrow> string \<Rightarrow> LocalCache" where
  "LocalCache_Delete l key =
     (case cache l key of Some entry \<Rightarrow> removeElement l key | None \<Rightarrow> l)"

definition LocalCache_Exists :: "LocalCache \<Rightarrow> string \<Rightarrow> instant \<Rightarrow> bool \<times> LocalCache" where
  "LocalCache_Exists l key now =
     (case cache l key of
        None \<Rightarrow> (False, l)
      | Some entry \<Rightarrow>
          if expiresAt entry < now then (False, removeElement l key) else (True, l))"

subsection \<open>Remote tier (internal/pkg/cache/redis.go)\<close>

text \<open>
  The Redis server behind the client: its keys with value and expiry instant, whether
  it can be reached, and the number of commands sent to it. A positive expiration sets
  the expiry; \<open>RedisCache.Set\<close> passes no other.
\<close>

record RedisClient =
  store :: "string \<rightharpoonup> string \<times> instant option"
  reachable :: bool
  roundTrips :: nat

definition client_Get ::
  "RedisClient \<Rightarrow> string \<Rightarrow> instant \<Rightarrow> (cache_error + string) \<times> RedisClient" where
  "client_Get c key now =
     (let c' = c\<lparr>roundTrips := Suc (roundTrips c)\<rparr> in
      if \<not> reachable c then (Inl RedisUnavailable, c')
      else
        (case store c key of
           None \<Rightarrow> (Inl RedisNil, c')
         | Some (val, None) \<Rightarrow> (Inr val, c')
         | Some (val, Some expiry) \<Rightarrow>
             if expiry \<le> now then (Inl RedisNil, c') else (Inr val, c')))"

definition client_Set ::
  "RedisClient \<Rightarrow> string \<Rightarrow> string \<Rightarrow> duration \<Rightarrow> instant
     \<Rightarrow> cache_error option \<times> RedisClient" where
  "client_Set c key data expiration now =
     (let c' = c\<lparr>roundTrips := Suc (roundTrips c)\<rparr> in
      if \<not> reachable c then (Some RedisUnavailable, c')
      else (None, c'\<lparr>store := (store c)(key \<mapsto>
              (data, if 0 < expiration then Some (now + expiration) else None))\<rparr>))"

text \<open>\<open>client\<close> is a pointer: \<open>None\<close> is nil.\<close>

record RedisCache =
  client :: "RedisClient option"
  emptyExpiration :: duration
  defaultExpiration :: duration

definition minute :: duration where "minute = 60 * second"
definition hour :: duration where "hour = 60 * minute"

definition NewRedisCache :: "RedisClient option \<Rightarrow> RedisCache option" where
  "NewRedisCache c =
     (case c of
        None \<Rightarrow> None
      | Some rc \<Rightarrow>
          Some \<lparr>client = Some rc, emptyExpiration = minute, defaultExpiration = hour\<rparr>)"

text \<open>
  \<open>RedisCache.Set\<close>: a nil value is stored as the sentinel text with the short expiry.
  \<open>sendSet\<close> is its last line, the command to the server.
\<close>

definition sendSet ::
  "RedisCache \<Rightarrow> RedisClient \<Rightarrow> string \<Rightarrow> string \<Rightarrow> duration \<Rightarrow> instant
     \<Rightarrow> cache_error option \<times> RedisCache" where
  "sendSet r c key data expiration now =
     (case client_Set c key data expiration now of
        (e, c') \<Rightarrow> (e, r\<lparr>client := Some c'\<rparr>))"

definition RedisCache_Set ::
  "RedisCache \<Rightarrow> string \<Rightarrow> gval \<Rightarrow> duration \<Rightarrow> instant
     \<Rightarrow> cache_error option \<times> RedisCache" where
  "RedisCache_Set r key v expiration now =
     (case client r of
        None \<Rightarrow> (None, r)
      | Some c \<Rightarrow>
          if v = GNil then sendSet r c key ''<empty>'' (emptyExpiration r) now
          else
            (case json_Marshal v of
               Inl e \<Rightarrow> (Some e, r)
             | Inr data \<Rightarrow>
                 sendSet r c key data
                   (if expiration \<le> 0 then defaultExpiration r else expiration) now))"

text \<open>\<open>RedisCache.Get\<close>: the sentinel text reads as a missing key.\<close>

definition RedisCache_Get ::
  "RedisCache \<Rightarrow> string \<Rightarrow> dest \<Rightarrow> instant \<Rightarrow> (cache_error + dest) \<times> RedisCache" where
  "RedisCache_Get r key d now =
     (case client r of
        None \<Rightarrow> (Inl RedisNil, r)
      | Some c \<Rightarrow>
          (case client_Get c key now of
             (Inl err, c) \<Rightarrow>
               (Inl (if err = RedisNil then ErrKeyNotFound else err), r\<lparr>client := Some c\<rparr>)
           | (Inr val, c) \<Rightarrow>
               if val = ''<empty>'' then (Inl ErrKeyNotFound, r\<lparr>client := Some c\<rparr>)
               else (json_Unmarshal val d, r\<lparr>client := Some c\<rparr>)))"

subsection \<open>MultiLevelCache\<close>

record MultiLevelCache =
  l1Cache :: "LocalCache option"
  l2Cache :: "RedisCache option"

definition NewMultiLevelCache :: "RedisClient option \<Rightarrow> MultiLevelCache option" where
  "NewMultiLevelCache redisClient =
     (case redisClient of
        None \<Rightarrow> None
      | Some c \<Rightarrow>
          (case NewRedisCache (Some c) of
             None \<Rightarrow> None
           | Some redisCache \<Rightarrow>
               Some \<lparr>l1Cache = Some (NewLocalCache 1000 (5 * minute)),
                     l2Cache = Some redisCache\<rparr>))"

text \<open>
  \<open>MultiLevelCache.Get\<close>, taken to run at the one instant \<open>now\<close>. Any error of the
  local \<open>Get\<close> sends the call to the remote tier.
\<close>

definition MultiLevelCache_Get ::
  "MultiLevelCache \<Rightarrow> string \<Rightarrow> dest \<Rightarrow> instant
     \<Rightarrow> (cache_error + dest) \<times> MultiLevelCache" where
  "MultiLevelCache_Get m key d now =
     (case (l1Cache m, l2Cache m) of
        (Some l1, Some l2) \<Rightarrow>
          (case LocalCache_Get l1 key d now of
             (Inr d', l1) \<Rightarrow> (Inr d', m\<lparr>l1Cache := Some l1\<rparr>)
           | (Inl err, l1) \<Rightarrow>
               (case client l2 of
                  None \<Rightarrow> (Inl NilPointerPanic, m\<lparr>l1Cache := Some l1\<rparr>)
                | Some c \<Rightarrow>
                    (case client_Get c key now of
                       (Inl err, c) \<Rightarrow>
                         (Inl (if err = RedisNil then ErrKeyNotFound else err),
                          m\<lparr>l1Cache := Some l1, l2Cache := Some (l2\<lparr>client := Some c\<rparr>)\<rparr>)
                     | (Inr val, c) \<Rightarrow>
                         (let l2 = l2\<lparr>client := Some c\<rparr> in
                          if val = ''<empty>'' then
                            (Inl ErrKeyNotFound,
                             m\<lparr>l1Cache := Some (LocalCache_Set l1 key (GString ''<empty>'') minute now),
                               l2Cache := Some l2\<rparr>)
                          else
                            (case json_Unmarshal val d of
                               Inl err \<Rightarrow> (Inl err, m\<lparr>l1Cache := Some l1, l2Cache := Some l2\<rparr>)
                             | Inr d' \<Rightarrow>
                                 (Inr d',
                                  m\<lparr>l1Cache := Some (LocalCache_Set l1 key (GString val) minute now),
                                    l2Cache := Some l2\<rparr>))))))
      | _ \<Rightarrow> (Inl CacheInstanceNil, m))"

text \<open>
  \<open>MultiLevelCache.Set\<close>: the local \<open>Set\<close> has no error, so the result is \<open>nil\<close>
  whatever the remote tier answers.
\<close>

definition MultiLevelCache_Set ::
  "MultiLevelCache \<Rightarrow> string \<Rightarrow> gval \<Rightarrow> duration \<Rightarrow> instant
     \<Rightarrow> cache_error option \<times> MultiLevelCache" where
  "MultiLevelCache_Set m key v expiration now =
     (case (l1Cache m, l2Cache m) of
        (Some l1, Some l2) \<Rightarrow>
          (let l1 = LocalCache_Set l1 key v expiration now;
               (err2, l2) = RedisCache_Set l2 key v expiration now
           in (None, m\<lparr>l1Cache := Some l1, l2Cache := Some l2\<rparr>))
      | _ \<Rightarrow> (Some CacheInstanceNil, m))"

text \<open>
  For the scenarios below: a reachable server with no key; a tiered cache built over
  the server after \<open>RedisCache.Set key v\<close>; the value the local tier holds for a key;
  the commands the remote tier has received.
\<close>

definition emptyRedis :: RedisClient where
  "emptyRedis = \<lparr>store = Map.empty, reachable = True, roundTrips = 0\<rparr>"

definition localValue :: "MultiLevelCache \<Rightarrow> string \<Rightarrow> gval option" where
  "localValue m key =
     (case l1Cache m of None \<Rightarrow> None | Some l \<Rightarrow> map_option entryValue (cache l key))"

definition remoteRoundTrips :: "MultiLevelCache \<Rightarrow> nat" where
  "remoteRoundTrips m =
     (case l2Cache m of
        None \<Rightarrow> 0
      | Some r \<Rightarrow> (case client r of None \<Rightarrow> 0 | Some c \<Rightarrow> roundTrips c))"

definition tieredOver :: "string \<Rightarrow> gval \<Rightarrow> MultiLevelCache option" where
  "tieredOver key v =
     (case NewRedisCache (Some emptyRedis) of
        None \<Rightarrow> None
      | Some r \<Rightarrow> NewMultiLevelCache (client (snd (RedisCache_Set r key v 0 0))))"

text \<open>A driver: local-cache operations applied one after another.\<close>

datatype cacheOp =
  OpGet string dest instant
  | OpSet string gval duration instant
  | OpDelete string
  | OpExists string instant

fun applyOp :: "LocalCache \<Rightarrow> cacheOp \<Rightarrow> LocalCache" where
  "applyOp l (OpGet key d now) = snd (LocalCache_Get l key d now)"
| "applyOp l (OpSet key v expiration now) = LocalCache_Set l key v expiration now"
| "applyOp l (OpDelete key) = LocalCache_Delete l key"
| "applyOp l (OpExists key now) = snd (LocalCache_Exists l key now)"

fun applyOps :: "LocalCache \<Rightarrow> cacheOp list \<Rightarrow> LocalCache" where
  "applyOps l [] = l"
| "applyOps l (op # ops) = applyOps (applyOp l op) ops"

text \<open>
  The invariant of the local cache: the list names each element once, list and map hold
  the same keys, and the size is at most \<open>max 1 capacity\<close>.
\<close>

definition cacheInv :: "LocalCache \<Rightarrow> bool" where
  "cacheInv l =
     (distinct (evictList l) \<and> set (evictList l) = dom (cache l) \<and>
      int (length (evictList l)) \<le> max 1 (sint (capacity l)))"

section \<open>Circuit breaker: request accounting\<close>

lemma canExecute_requestCount:
  "requestCount (snd (canExecute cb now)) = requestCount cb"
  by (simp add: canExecute_def split: State.split)

lemma updateState_requestCount:
  "requestCount (updateState cb e tFail tTrip) = requestCount cb + 1"
  by (simp add: updateState_def Let_def split: option.split State.split)

text \<open>
  C10. An admitted call (the protected function runs: the world becomes the one it
  returns) adds 2 to \<open>requestCount\<close>, once in \<open>Execute\<close> and once in
  \<open>updateState\<close>; a rejected call (the world stays) adds nothing. The addition is
  Go's: it wraps at 64 bits.
\<close>

theorem C10_requestCount_twice:
  "(requestCount (fst (snd (Execute cb fn w now tFail tTrip))),
    snd (snd (Execute cb fn w now tFail tTrip))) =
     (if fst (canExecute cb now) then (requestCount cb + 2, snd (fn w))
      else (requestCount cb, w))"
proof (cases "canExecute cb now")
  case (Pair ok cb')
  have rc: "requestCount cb' = requestCount cb"
    using canExecute_requestCount [of cb now] Pair by simp
  show ?thesis
  proof (cases ok)
    case True
    with Pair rc show ?thesis
      by (simp add: Execute_def Let_def updateState_requestCount split: prod.split)
  next
    case False
    with Pair rc show ?thesis
      by (simp add: Execute_def)
  qed
qed

section \<open>Circuit breaker: the trip and recovery cycle\<close>

lemma small_count_below_5:
  assumes "k < 4"
  shows "\<not> (5 :: go_int) \<le>s of_nat k + 1"
proof -
  from assms have "k = 0 \<or> k = 1 \<or> k = 2 \<or> k = 3" by arith
  then show ?thesis by (auto simp: word_sle_eq)
qed

lemma Execute_Closed_fail:
  assumes "state cb = Closed" "fst (fn w) \<noteq> None"
  shows "\<exists>cb'. Execute cb fn w now tFail tTrip = (fst (fn w), cb', snd (fn w)) \<and>
     failureCount cb' = failureCount cb + 1 \<and>
     state cb' = (if failureThreshold cb \<le>s failureCount cb + 1 then Open else Closed) \<and>
     (failureThreshold cb \<le>s failureCount cb + 1 \<longrightarrow> trippedTime cb' = tTrip) \<and>
     failureThreshold cb' = failureThreshold cb \<and>
     successThreshold cb' = successThreshold cb \<and>
     resetTimeout cb' = resetTimeout cb"
  using assms
  by (cases "fn w") (auto simp: Execute_def canExecute_def updateState_def Let_def)

lemma closed_failures:
  assumes "state cb = Closed" "failureThreshold cb = 5" "failureCount cb = of_nat k"
    and "k + length calls < 5"
    and "\<forall>c \<in> set calls. \<forall>w. fst (fst c w) \<noteq> None"
  shows "state (fst (ExecuteAll cb calls w)) = Closed \<and>
         failureCount (fst (ExecuteAll cb calls w)) = of_nat (k + length calls) \<and>
         failureThreshold (fst (ExecuteAll cb calls w)) = 5 \<and>
         successThreshold (fst (ExecuteAll cb calls w)) = successThreshold cb \<and>
         resetTimeout (fst (ExecuteAll cb calls w)) = resetTimeout cb"
  using assms
proof (induction calls arbitrary: cb k w)
  case Nil
  then show ?case by simp
next
  case (Cons c calls)
  obtain fn now tFail tTrip where c: "c = (fn, now, tFail, tTrip)"
    by (cases c) auto
  from Cons.prems c have fails: "fst (fn w) \<noteq> None" by simp
  from Cons.prems have k: "k < 4" by simp
  obtain cb' where
    ex: "Execute cb fn w now tFail tTrip = (fst (fn w), cb', snd (fn w))" and
    fc: "failureCount cb' = failureCount cb + 1" and
    st: "state cb' = (if failureThreshold cb \<le>s failureCount cb + 1 then Open else Closed)" and
    keep: "failureThreshold cb' = failureThreshold cb"
      "successThreshold cb' = successThreshold cb" "resetTimeout cb' = resetTimeout cb"
    using Execute_Closed_fail [of cb fn w now tFail tTrip] Cons.prems(1) fails by blast
  from st Cons.prems(2,3) small_count_below_5 [OF k] have st': "state cb' = Closed"
    by simp
  from fc Cons.prems(3) have fc': "failureCount cb' = of_nat (Suc k)" by simp
  have "state (fst (ExecuteAll cb' calls (snd (fn w)))) = Closed \<and>
        failureCount (fst (ExecuteAll cb' calls (snd (fn w)))) = of_nat (Suc k + length calls) \<and>
        failureThreshold (fst (ExecuteAll cb' calls (snd (fn w)))) = 5 \<and>
        successThreshold (fst (ExecuteAll cb' calls (snd (fn w)))) = successThreshold cb' \<and>
        resetTimeout (fst (ExecuteAll cb' calls (snd (fn w)))) = resetTimeout cb'"
    using Cons.prems keep by (intro Cons.IH [OF st' _ fc']) auto
  with c ex keep show ?case by simp
qed

lemma ExecuteAll_append:
  "ExecuteAll cb (xs @ ys) w =
     (case ExecuteAll cb xs w of (cb', w') \<Rightarrow> ExecuteAll cb' ys w')"
  by (induction xs arbitrary: cb w) (auto split: prod.splits)

lemma Execute_Closed_success:
  assumes "state cb = Closed" "fst (fn w) = None"
  shows "failureCount (fst (snd (Execute cb fn w now tFail tTrip))) = 0 \<and>
         state (fst (snd (Execute cb fn w now tFail tTrip))) = Closed"
  using assms
  by (cases "fn w") (auto simp: Execute_def canExecute_def updateState_def Let_def)

lemma Execute_Open_elapsed:
  assumes "state cb = Open" "successThreshold cb = 1"
    and "trippedTime cb + resetTimeout cb \<le> now"
  shows "canExecute cb now = (True, cb\<lparr>state := HalfOpen, successCount := 0\<rparr>)"
    and "fst (fn w) \<noteq> None \<Longrightarrow>
           state (fst (snd (Execute cb fn w now tFail tTrip))) = Open \<and>
           trippedTime (fst (snd (Execute cb fn w now tFail tTrip))) = tTrip"
    and "fst (fn w) = None \<Longrightarrow>
           state (fst (snd (Execute cb fn w now tFail tTrip))) = Closed \<and>
           failureCount (fst (snd (Execute cb fn w now tFail tTrip))) = 0"
  using assms
  by (cases "fn w"; auto simp: Execute_def canExecute_def updateState_def Let_def Since_def
      word_sle_eq)+

lemma Execute_Open_fail:
  assumes "state cb = Open" "fst (fn w) \<noteq> None"
  shows "state (fst (snd (Execute cb fn w now tFail tTrip))) = Open \<and>
         failureThreshold (fst (snd (Execute cb fn w now tFail tTrip))) = failureThreshold cb \<and>
         successThreshold (fst (snd (Execute cb fn w now tFail tTrip))) = successThreshold cb \<and>
         resetTimeout (fst (snd (Execute cb fn w now tFail tTrip))) = resetTimeout cb"
  using assms
  by (cases "fn w") (auto simp: Execute_def canExecute_def updateState_def Let_def)

lemma failures_reach_Open:
  assumes "failureThreshold cb = 5"
    and "state cb = Open \<or> (state cb = Closed \<and> failureCount cb = of_nat k \<and> k < 5)"
    and "\<forall>c \<in> set calls. \<forall>w. fst (fst c w) \<noteq> None"
  shows "failureThreshold (fst (ExecuteAll cb calls w)) = 5 \<and>
         successThreshold (fst (ExecuteAll cb calls w)) = successThreshold cb \<and>
         resetTimeout (fst (ExecuteAll cb calls w)) = resetTimeout cb \<and>
         (state (fst (ExecuteAll cb calls w)) = Open \<or> k + length calls < 5)"
  using assms
proof (induction calls arbitrary: cb k w)
  case Nil
  then show ?case by auto
next
  case (Cons c calls)
  obtain fn now tFail tTrip where c: "c = (fn, now, tFail, tTrip)"
    by (cases c) auto
  from Cons.prems c have fails: "fst (fn w) \<noteq> None" by simp
  let ?cb = "fst (snd (Execute cb fn w now tFail tTrip))"
  let ?w = "snd (snd (Execute cb fn w now tFail tTrip))"
  have step: "failureThreshold ?cb = 5 \<and> successThreshold ?cb = successThreshold cb \<and>
      resetTimeout ?cb = resetTimeout cb \<and>
      (state ?cb = Open \<or> (state ?cb = Closed \<and> failureCount ?cb = of_nat (Suc k) \<and> Suc k < 5))"
  proof (cases "state cb = Open")
    case True
    with Execute_Open_fail [of cb fn w now tFail tTrip] fails Cons.prems(1)
    show ?thesis by simp
  next
    case False
    with Cons.prems(2) have closed: "state cb = Closed" "failureCount cb = of_nat k" "k < 5"
      by auto
    from Execute_Closed_fail [of cb fn w now tFail tTrip] closed(1) fails
    obtain cb' where
      ex: "Execute cb fn w now tFail tTrip = (fst (fn w), cb', snd (fn w))" and
      fc: "failureCount cb' = failureCount cb + 1" and
      st: "state cb' = (if failureThreshold cb \<le>s failureCount cb + 1 then Open else Closed)" and
      keep: "failureThreshold cb' = failureThreshold cb"
        "successThreshold cb' = successThreshold cb" "resetTimeout cb' = resetTimeout cb"
      by blast
    show ?thesis
    proof (cases "k < 4")
      case True
      from st Cons.prems(1) closed(2) small_count_below_5 [OF True]
      have "state cb' = Closed" by simp
      with ex fc keep closed(2) True Cons.prems(1) show ?thesis by simp
    next
      case False
      with closed(3) have "k = 4" by simp
      with st Cons.prems(1) closed(2) have "state cb' = Open" by simp
      with ex keep Cons.prems(1) show ?thesis by simp
    qed
  qed
  from step Cons.prems(3)
  have "failureThreshold (fst (ExecuteAll ?cb calls ?w)) = 5 \<and>
        successThreshold (fst (ExecuteAll ?cb calls ?w)) = successThreshold ?cb \<and>
        resetTimeout (fst (ExecuteAll ?cb calls ?w)) = resetTimeout ?cb \<and>
        (state (fst (ExecuteAll ?cb calls ?w)) = Open \<or> Suc k + length calls < 5)"
    by (intro Cons.IH) auto
  with step c show ?case
    by (simp add: case_prod_beta)
qed

lemma last_failure_trips:
  assumes "state cb = Closed" "failureThreshold cb = 5" "failureCount cb = of_nat k"
    and "k + length calls = 5" and "k < 5"
    and "\<forall>c \<in> set calls. \<forall>w. fst (fst c w) \<noteq> None"
  shows "state (fst (ExecuteAll cb calls w)) = Open \<and>
         trippedTime (fst (ExecuteAll cb calls w)) = snd (snd (snd (last calls)))"
proof -
  from assms(4,5) obtain xs c where calls: "calls = xs @ [c]" and len: "k + length xs = 4"
    by (cases calls rule: rev_cases) auto
  obtain fn now tFail tTrip where c: "c = (fn, now, tFail, tTrip)"
    by (cases c) auto
  obtain cb4 w4 where run: "ExecuteAll cb xs w = (cb4, w4)"
    by (cases "ExecuteAll cb xs w")
  have "state (fst (ExecuteAll cb xs w)) = Closed \<and>
        failureCount (fst (ExecuteAll cb xs w)) = of_nat (k + length xs) \<and>
        failureThreshold (fst (ExecuteAll cb xs w)) = 5 \<and>
        successThreshold (fst (ExecuteAll cb xs w)) = successThreshold cb \<and>
        resetTimeout (fst (ExecuteAll cb xs w)) = resetTimeout cb"
    using assms calls len by (intro closed_failures) auto
  with run len have cb4: "state cb4 = Closed" "failureCount cb4 = 4" "failureThreshold cb4 = 5"
    by simp_all
  from assms(6) calls c have "fst (fn w4) \<noteq> None" by simp
  with cb4(1) obtain cb5 where
    ex: "Execute cb4 fn w4 now tFail tTrip = (fst (fn w4), cb5, snd (fn w4))" and
    st: "state cb5 = (if failureThreshold cb4 \<le>s failureCount cb4 + 1 then Open else Closed)" and
    tt: "failureThreshold cb4 \<le>s failureCount cb4 + 1 \<longrightarrow> trippedTime cb5 = tTrip"
    using Execute_Closed_fail [of cb4 fn w4 now tFail tTrip] by blast
  from st tt cb4 have "state cb5 = Open" "trippedTime cb5 = tTrip" by simp_all
  with calls c run ex show ?thesis
    by (simp add: ExecuteAll_append)
qed

text \<open>
  C1. A breaker with \<open>failureThreshold = 5\<close> and \<open>successThreshold = 1\<close> that is
  Closed with \<open>k < 5\<close> consecutive failures counted (\<open>k = 0\<close> as \<open>NewCircuitBreaker\<close>
  or a success leaves it). \<open>calls\<close> are consecutive \<open>Execute\<close> calls whose function
  fails, at any instants.
  \<^item> While \<open>k\<close> and the calls stay below 5 the breaker is Closed with that many failures
    counted, and one successful \<open>Execute\<close> then sets the count to 0.
  \<^item> The call that brings the count to 5 leaves it Open, tripped at the instant that call
    read the clock. After 5 failing calls it is Open, whatever \<open>k\<close> was.
  \<^item> At any \<open>now\<close> with \<open>resetTimeout\<close> elapsed since the trip, \<open>canExecute\<close> admits
    the call and moves to HalfOpen; that call's failure leaves the breaker Open with a
    new trip time, its success leaves it Closed with the count at 0.
\<close>

theorem C1_breaker_cycle:
  assumes "failureThreshold cb = 5" and "successThreshold cb = 1"
    and "state cb = Closed" and "failureCount cb = of_nat k" and "k < 5"
    and "\<forall>c \<in> set calls. \<forall>w. fst (fst c w) \<noteq> None"
    and "\<forall>w. fst (bad w) \<noteq> None" and "\<forall>w. fst (good w) = None"
  shows
    "(let cb' = fst (ExecuteAll cb calls w); w' = snd (ExecuteAll cb calls w) in
      (k + length calls < 5 \<longrightarrow>
         state cb' = Closed \<and> failureCount cb' = of_nat (k + length calls) \<and>
         failureCount (fst (snd (Execute cb' good w' now tFail tTrip))) = 0 \<and>
         state (fst (snd (Execute cb' good w' now tFail tTrip))) = Closed) \<and>
      (k + length calls = 5 \<longrightarrow>
         state cb' = Open \<and> trippedTime cb' = snd (snd (snd (last calls)))) \<and>
      (length calls = 5 \<longrightarrow>
         state cb' = Open \<and>
         (trippedTime cb' + resetTimeout cb \<le> now \<longrightarrow>
            canExecute cb' now = (True, cb'\<lparr>state := HalfOpen, successCount := 0\<rparr>) \<and>
            state (fst (snd (Execute cb' bad w' now tFail tTrip))) = Open \<and>
            trippedTime (fst (snd (Execute cb' bad w' now tFail tTrip))) = tTrip \<and>
            state (fst (snd (Execute cb' good w' now tFail tTrip))) = Closed \<and>
            failureCount (fst (snd (Execute cb' good w' now tFail tTrip))) = 0)))"
proof -
  let ?cb = "fst (ExecuteAll cb calls w)" and ?w = "snd (ExecuteAll cb calls w)"
  have below: "state ?cb = Closed \<and> failureCount ?cb = of_nat (k + length calls) \<and>
      failureCount (fst (snd (Execute ?cb good ?w now tFail tTrip))) = 0 \<and>
      state (fst (snd (Execute ?cb good ?w now tFail tTrip))) = Closed"
    if "k + length calls < 5"
  proof -
    have "state ?cb = Closed \<and> failureCount ?cb = of_nat (k + length calls) \<and>
        failureThreshold ?cb = 5 \<and> successThreshold ?cb = successThreshold cb \<and>
        resetTimeout ?cb = resetTimeout cb"
      using assms that by (intro closed_failures) auto
    with assms(8) Execute_Closed_success [of ?cb good ?w now tFail tTrip]
    show ?thesis by simp
  qed
  have at5: "state ?cb = Open \<and> trippedTime ?cb = snd (snd (snd (last calls)))"
    if "k + length calls = 5"
    using assms that by (intro last_failure_trips) auto
  have run: "failureThreshold ?cb = 5 \<and> successThreshold ?cb = successThreshold cb \<and>
      resetTimeout ?cb = resetTimeout cb \<and> (state ?cb = Open \<or> k + length calls < 5)"
    using assms by (intro failures_reach_Open) auto
  have five: "state ?cb = Open" if "length calls = 5"
    using run that by auto
  have probe: "canExecute ?cb now = (True, ?cb\<lparr>state := HalfOpen, successCount := 0\<rparr>) \<and>
      state (fst (snd (Execute ?cb bad ?w now tFail tTrip))) = Open \<and>
      trippedTime (fst (snd (Execute ?cb bad ?w now tFail tTrip))) = tTrip \<and>
      state (fst (snd (Execute ?cb good ?w now tFail tTrip))) = Closed \<and>
      failureCount (fst (snd (Execute ?cb good ?w now tFail tTrip))) = 0"
    if "length calls = 5" and "trippedTime ?cb + resetTimeout cb \<le> now"
  proof -
    from that five run assms(2) have pre: "state ?cb = Open" "successThreshold ?cb = 1"
      "trippedTime ?cb + resetTimeout ?cb \<le> now"
      by simp_all
    from assms(7,8) have fn: "fst (bad ?w) \<noteq> None" "fst (good ?w) = None"
      by simp_all
    from pre fn Execute_Open_elapsed(1) [of ?cb now]
      Execute_Open_elapsed(2) [of ?cb now bad ?w tFail tTrip]
      Execute_Open_elapsed(3) [of ?cb now good ?w tFail tTrip]
    show ?thesis by blast
  qed
  from below at5 five probe show ?thesis
    by (simp add: Let_def)
qed

theorem C1_breaker_cycle_witness:
  "(let down = (\<lambda>w::nat. (Some ''connection refused'', Suc w));
        up = (\<lambda>w::nat. (None :: err, Suc w));
        fresh = NewCircuitBreaker None;
        tripped = fst (ExecuteAll fresh (replicate 5 (down, 10, 11, 12)) 0);
        two = fst (ExecuteAll fresh (replicate 2 (down, 10, 11, 12)) 0)
    in failureCount two = 2 \<and>
       failureCount (fst (snd (Execute two up 2 20 21 22))) = 0 \<and>
       state tripped = Open \<and> trippedTime tripped = 12 \<and>
       resetTimeout fresh = 30000000000 \<and>
       fst (canExecute tripped 30000000012) \<and>
       state (snd (canExecute tripped 30000000012)) = HalfOpen \<and>
       state (fst (snd (Execute tripped down 5 30000000012 30000000013 30000000014))) = Open \<and>
       state (fst (snd (Execute tripped up 5 30000000012 30000000013 30000000014))) = Closed)"
proof -
  let ?down = "\<lambda>w::nat. (Some ''connection refused'', Suc w)"
  let ?up = "\<lambda>w::nat. (None :: err, Suc w)"
  let ?fresh = "NewCircuitBreaker None"
  have cfg: "failureThreshold ?fresh = 5" "successThreshold ?fresh = 1"
    "state ?fresh = Closed" "failureCount ?fresh = of_nat 0" "(0::nat) < 5"
    and rt: "resetTimeout ?fresh = 30000000000"
    by (simp_all add: NewCircuitBreaker_def DefaultConfig_def second_def)
  have fns: "\<forall>w. fst (?down w) \<noteq> None" "\<forall>w. fst (?up w) = None"
    by simp_all
  have down5: "\<forall>c \<in> set (replicate 5 (?down, 10::int, 11::int, 12::int)). \<forall>w. fst (fst c w) \<noteq> None"
    and down2: "\<forall>c \<in> set (replicate 2 (?down, 10::int, 11::int, 12::int)). \<forall>w. fst (fst c w) \<noteq> None"
    by simp_all
  have w5: "snd (ExecuteAll ?fresh (replicate 5 (?down, 10, 11, 12)) 0) = 5"
    and w2: "snd (ExecuteAll ?fresh (replicate 2 (?down, 10, 11, 12)) 0) = 2"
    by (simp_all add: eval_nat_numeral Execute_def canExecute_def updateState_def Let_def
        NewCircuitBreaker_def DefaultConfig_def word_sle_eq)
  from C1_breaker_cycle [OF cfg down5 fns, of 0 30000000012 30000000013 30000000014]
    C1_breaker_cycle [OF cfg down2 fns, of 0 20 21 22]
  show ?thesis
    by (simp add: Let_def w5 w2 rt)
qed

section \<open>Circuit breaker: rejected calls\<close>

text \<open>
  C4. A call made while the breaker is Open and \<open>resetTimeout\<close> has not elapsed since
  the trip, or while it is HalfOpen with \<open>successCount\<close> not below
  \<open>successThreshold\<close>, is not admitted: \<open>Execute\<close> returns the error
  "circuit breaker is open", the world is the one it was given (the protected function
  did not run), and \<open>totalSuccess\<close>, \<open>totalFailure\<close> and every other field of the
  breaker are unchanged.
\<close>

theorem C4_rejected_call:
  assumes "(state cb = Open \<and> Since now (trippedTime cb) < resetTimeout cb) \<or>
           (state cb = HalfOpen \<and> \<not> successCount cb <s successThreshold cb)"
  shows "\<not> fst (canExecute cb now) \<and>
         fst (Execute cb fn w now tFail tTrip) = Some ''circuit breaker is open'' \<and>
         snd (snd (Execute cb fn w now tFail tTrip)) = w \<and>
         totalSuccess (fst (snd (Execute cb fn w now tFail tTrip))) = totalSuccess cb \<and>
         totalFailure (fst (snd (Execute cb fn w now tFail tTrip))) = totalFailure cb \<and>
         fst (snd (Execute cb fn w now tFail tTrip)) = cb"
  using assms by (auto simp: Execute_def canExecute_def)

theorem C4_rejected_call_witness:
  "(let tripped = (NewCircuitBreaker None)\<lparr>state := Open, trippedTime := 100, totalFailure := 5\<rparr>;
        spent = (NewCircuitBreaker None)\<lparr>state := HalfOpen, successCount := 1\<rparr>;
        fn = (\<lambda>w::nat. (None :: err, Suc w))
    in Since 200 (trippedTime tripped) < resetTimeout tripped \<and>
       Execute tripped fn 7 200 201 202 = (Some ''circuit breaker is open'', tripped, 7) \<and>
       Execute spent fn 7 200 201 202 = (Some ''circuit breaker is open'', spent, 7))"
  using
    C4_rejected_call [of
      "(NewCircuitBreaker None)\<lparr>state := Open, trippedTime := 100, totalFailure := 5\<rparr>"
      200 "\<lambda>w::nat. (None, Suc w)" 7 201 202]
    C4_rejected_call [of
      "(NewCircuitBreaker None)\<lparr>state := HalfOpen, successCount := 1\<rparr>"
      200 "\<lambda>w::nat. (None, Suc w)" 7 201 202]
  by (simp add: NewCircuitBreaker_def DefaultConfig_def second_def Since_def Let_def prod_eq_iff
      word_sless_alt)

section \<open>Sliding-window limiter: admission\<close>















section \<open>Load balancer: what the strategy is given\<close>

text \<open>
  The maps the balancer builds: whatever the registry answers and whatever the probes find,
  every listed service has at least one instance, and every instance is "active" or
  "unhealthy".
\<close>

lemma carriedOver_status:
  "carriedOver v olds = Some (c, la, st) \<Longrightarrow> \<exists>i \<in> set olds. Status i = st"
  by (induction olds) (auto split: if_splits)

lemma statusKnown_refreshLoop:
  assumes "statusKnown old" "statusKnown m"
  shows "statusKnown (refreshLoop atoi old clock n kvs m)"
  using assms(2)
proof (induction kvs arbitrary: m n)
  case Nil
  then show ?case by simp
next
  case (Cons kv kvs)
  obtain key v where kv: "kv = (key, v)" by (cases kv)
  let ?name = "serviceNameOf key"
  obtain c la st where carry:
    "(case old ?name of
        None \<Rightarrow> (0, clock n, ''active'')
      | Some oldInstances \<Rightarrow>
          (case carriedOver v oldInstances of
             None \<Rightarrow> (0, clock n, ''active'')
           | Some old \<Rightarrow> old)) = (c, la, st)"
    by (metis prod_cases3)
  have st: "st = ''active'' \<or> st = ''unhealthy''"
  proof (cases "old ?name")
    case None
    with carry show ?thesis by simp
  next
    case (Some olds)
    show ?thesis
    proof (cases "carriedOver v olds")
      case None
      with Some carry show ?thesis by simp
    next
      case (Some a)
      with \<open>old ?name = Some olds\<close> carry have "carriedOver v olds = Some (c, la, st)"
        by simp
      from carriedOver_status [OF this] assms(1) \<open>old ?name = Some olds\<close>
      show ?thesis by (auto simp: statusKnown_def)
    qed
  qed
  let ?inst = "\<lparr>Address = v, Weight = weightOf atoi v, Connections = c, LastActive = la,
      Status = st\<rparr>"
  let ?m = "m(?name \<mapsto> (case m ?name of None \<Rightarrow> [] | Some instances \<Rightarrow> instances) @ [?inst])"
  have "statusKnown ?m"
    unfolding statusKnown_def
  proof (intro allI impI)
    fix name instances
    assume a: "?m name = Some instances"
    show "instances \<noteq> [] \<and>
        (\<forall>i \<in> set instances. Status i = ''active'' \<or> Status i = ''unhealthy'')"
    proof (cases "name = ?name")
      case True
      with a have inst:
        "instances = (case m ?name of None \<Rightarrow> [] | Some instances \<Rightarrow> instances) @ [?inst]"
        by simp
      have "\<forall>i \<in> set (case m ?name of None \<Rightarrow> [] | Some instances \<Rightarrow> instances).
          Status i = ''active'' \<or> Status i = ''unhealthy''"
        using Cons.prems by (cases "m ?name") (auto simp: statusKnown_def)
      with inst st show ?thesis by auto
    next
      case False
      with a have "m name = Some instances" by simp
      with Cons.prems show ?thesis by (simp add: statusKnown_def)
    qed
  qed
  then have "statusKnown (refreshLoop atoi old clock (Suc n) kvs ?m)"
    by (rule Cons.IH)
  moreover have "refreshLoop atoi old clock n (kv # kvs) m =
      refreshLoop atoi old clock (Suc n) kvs ?m"
    using kv carry by (simp add: Let_def)
  ultimately show ?case
    by (simp only:)
qed

lemma checkInstances_props:
  "length (checkInstances h name i instances) = length instances \<and>
   (\<forall>x \<in> set (checkInstances h name i instances).
      Status x = ''active'' \<or> Status x = ''unhealthy'')"
  by (induction instances arbitrary: i) auto

lemma statusKnown_lbStep:
  "statusKnown (serviceMap lb) \<Longrightarrow> statusKnown (serviceMap (lbStep atoi lb e))"
proof (cases e)
  case (Refreshed resp clock)
  assume "statusKnown (serviceMap lb)"
  then show ?thesis
    using Refreshed statusKnown_refreshLoop [of "serviceMap lb" Map.empty]
    by (cases resp) (auto simp: refreshServices_def statusKnown_def)
next
  case (HealthChecked h)
  assume inv: "statusKnown (serviceMap lb)"
  show ?thesis
    unfolding statusKnown_def
  proof (intro allI impI)
    fix name instances
    assume "serviceMap (lbStep atoi lb e) name = Some instances"
    with HealthChecked obtain olds where olds: "serviceMap lb name = Some olds"
      and new: "instances = checkInstances h name 0 olds"
      by (auto simp: HealthCheck_def)
    from inv olds have "olds \<noteq> []" by (auto simp: statusKnown_def)
    with new checkInstances_props [of h name 0 olds]
    show "instances \<noteq> [] \<and> (\<forall>i \<in> set instances. Status i = ''active'' \<or> Status i = ''unhealthy'')"
      by auto
  qed
qed

lemma statusKnown_lbAfter:
  "statusKnown (serviceMap lb) \<Longrightarrow> statusKnown (serviceMap (lbAfter atoi lb es))"
  by (induction es arbitrary: lb) (simp_all add: statusKnown_lbStep)

lemma statusKnown_New: "statusKnown (serviceMap NewEtcdLoadBalancer)"
  by (simp add: statusKnown_def NewEtcdLoadBalancer_def)


lemma filterHealthy_filter:
  "filterHealthy acc instances =
     acc @ filter (\<lambda>i. Status i = ''active'' \<or> Status i = '''') instances"
  by (induction instances arbitrary: acc) auto

lemma filter_active_known:
  assumes "\<forall>i \<in> set instances. Status i = ''active'' \<or> Status i = ''unhealthy''"
  shows "filter (\<lambda>i. Status i = ''active'' \<or> Status i = '''') instances =
         filter (\<lambda>i. Status i = ''active'') instances"
  using assms by (induction instances) auto

text \<open>
  C6, as the code has it. On every map the balancer can hold (built from the empty map by
  refreshes and health checks), the list handed to the strategy is exactly the list of the
  service's instances whose status is "active", in their order. A service that is not in
  the map fails with "service not found"; a service in the map with no active instance
  fails with "no healthy instances"; in both cases the strategy is not called and its state
  is unchanged. Otherwise the result is the address the strategy selects, or its panic.
\<close>

theorem C6_strategy_sees_active_only:
  "(let lb = lbAfter atoi NewEtcdLoadBalancer events;
        handed = filter (\<lambda>i. Status i = ''active'')
                   (case serviceMap lb name of None \<Rightarrow> [] | Some instances \<Rightarrow> instances)
    in GetServiceWithStrategy lb name strategy st now =
         (if serviceMap lb name = None
          then (Inl (Error (''service not found: '' @ name)), st)
          else if handed = []
          then (Inl (Error (''no healthy instances for service: '' @ name)), st)
          else (map_sum Panic Address (fst (strategy handed st)), snd (strategy handed st))))"
proof -
  let ?lb = "lbAfter atoi NewEtcdLoadBalancer events"
  have inv: "statusKnown (serviceMap ?lb)"
    by (rule statusKnown_lbAfter) (rule statusKnown_New)
  show ?thesis
  proof (cases "serviceMap ?lb name")
    case None
    then show ?thesis by (simp add: GetServiceWithStrategy_def)
  next
    case (Some instances)
    with inv have ne: "instances \<noteq> []"
      and known: "\<forall>i \<in> set instances. Status i = ''active'' \<or> Status i = ''unhealthy''"
      by (auto simp: statusKnown_def)
    have healthy: "filterHealthy [] instances = filter (\<lambda>i. Status i = ''active'') instances"
      using filter_active_known [OF known] by (simp add: filterHealthy_filter)
    show ?thesis
    proof (cases "strategy (filter (\<lambda>i. Status i = ''active'') instances) st")
      case (Pair r st')
      with Some ne healthy show ?thesis
        by (cases r) (simp_all add: GetServiceWithStrategy_def Let_def)
    qed
  qed
qed

text \<open>
  The registry lists three instances under \<open>/services/orders/\<close>. \<open>key[9:]\<close> begins with
  the slash, so they are filed under the empty name. The probe of the first fails, and the
  least-connections strategy is given the other two.
\<close>

theorem C6_strategy_sees_active_only_witness:
  "GetServiceWithStrategy
     (lbAfter (\<lambda>s. None) NewEtcdLoadBalancer
        [Refreshed (Some [(''/services/orders/10.0.0.1:80'', ''10.0.0.1:80''),
                          (''/services/orders/10.0.0.2:80'', ''10.0.0.2:80''),
                          (''/services/orders/10.0.0.3:80'', ''10.0.0.3:80'')]) (\<lambda>n. 5 + int n),
         HealthChecked (\<lambda>name i address. address \<noteq> ''10.0.0.1:80'')])
     '''' LeastConnectionsStrategy_Select () 7 = (Inr ''10.0.0.2:80'', ())"
proof -
  let ?lb = "lbAfter (\<lambda>s. None) NewEtcdLoadBalancer
        [Refreshed (Some [(''/services/orders/10.0.0.1:80'', ''10.0.0.1:80''),
                          (''/services/orders/10.0.0.2:80'', ''10.0.0.2:80''),
                          (''/services/orders/10.0.0.3:80'', ''10.0.0.3:80'')]) (\<lambda>n. 5 + int n),
         HealthChecked (\<lambda>name i address. address \<noteq> ''10.0.0.1:80'')]"
  have m: "serviceMap ?lb '''' =
      Some [\<lparr>Address = ''10.0.0.1:80'', Weight = 1, Connections = 0, LastActive = 5,
              Status = ''unhealthy''\<rparr>,
            \<lparr>Address = ''10.0.0.2:80'', Weight = 1, Connections = 0, LastActive = 6,
              Status = ''active''\<rparr>,
            \<lparr>Address = ''10.0.0.3:80'', Weight = 1, Connections = 0, LastActive = 7,
              Status = ''active''\<rparr>]"
    by code_simp
  from C6_strategy_sees_active_only [of "\<lambda>s. None"
      "[Refreshed (Some [(''/services/orders/10.0.0.1:80'', ''10.0.0.1:80''),
                          (''/services/orders/10.0.0.2:80'', ''10.0.0.2:80''),
                          (''/services/orders/10.0.0.3:80'', ''10.0.0.3:80'')]) (\<lambda>n. 5 + int n),
         HealthChecked (\<lambda>name i address. address \<noteq> ''10.0.0.1:80'')]"
      "''''" LeastConnectionsStrategy_Select "()" 7]
  show ?thesis
    by (simp only: Let_def m)
       (simp add: LeastConnectionsStrategy_Select_def word_sless_alt)
qed

text \<open>
  C6 as claimed fails for a service the registry does not list: it has no active instance,
  and the call fails with "service not found", not with the no-healthy-instances error.
\<close>

theorem C6_unknown_service_counterexample:
  "serviceMap (lbAfter (\<lambda>s. None) NewEtcdLoadBalancer [Refreshed (Some []) (\<lambda>n. 5)])
     ''orders'' = None \<and>
   GetServiceWithStrategy
     (lbAfter (\<lambda>s. None) NewEtcdLoadBalancer [Refreshed (Some []) (\<lambda>n. 5)])
     ''orders'' LeastConnectionsStrategy_Select () 7 =
     (Inl (Error ''service not found: orders''), ()) \<and>
   GetServiceWithStrategy
     (lbAfter (\<lambda>s. None) NewEtcdLoadBalancer [Refreshed (Some []) (\<lambda>n. 5)])
     ''orders'' LeastConnectionsStrategy_Select () 7 \<noteq>
     (Inl (Error ''no healthy instances for service: orders''), ())"
  by (simp add: GetServiceWithStrategy_def NewEtcdLoadBalancer_def refreshServices_def)

section \<open>Load balancer: the round-robin index\<close>

text \<open>
  C9. With two instances and the counter at 2147483647 (the state after that many
  selections of this instance set), \<open>AddInt32\<close> wraps to -2147483648, so
  \<open>(currentIndex - 1) % 2\<close> is -1 and indexing the slice panics.
\<close>

theorem C9_round_robin_wraps_out_of_range:
  "fst (RoundRobinStrategy_Select
     [\<lparr>Address = ''10.0.0.1:80'', Weight = 1, Connections = 0, LastActive = 0,
       Status = ''active''\<rparr>,
      \<lparr>Address = ''10.0.0.2:80'', Weight = 1, Connections = 0, LastActive = 0,
       Status = ''active''\<rparr>]
     \<lparr>indexMap = [''10.0.0.1:80,10.0.0.2:80,'' \<mapsto> 2147483647]\<rparr>) =
   Inl (IndexOutOfRange (- 1) 2)"
  by (simp add: RoundRobinStrategy_Select_def Let_def index_at_def go_rem_def)

text \<open>While the incremented counter is positive the index is in range.\<close>

lemma RoundRobin_in_range_before_wrap:
  assumes "instances \<noteq> []" and "indexMap rrs (instancesKey '''' instances) = Some index"
    and "0 < sint (index + 1)"
  shows "fst (RoundRobinStrategy_Select instances rrs) =
           Inr (instances ! (nat (sint (index + 1) - 1) mod length instances))"
proof -
  let ?n = "sint (index + 1) - 1"
  from assms(3) have n: "0 \<le> ?n" by simp
  then have "go_rem ?n (int (length instances)) = ?n mod int (length instances)"
    by (cases "?n = 0") (simp_all add: go_rem_def)
  moreover have "0 \<le> ?n mod int (length instances)"
    "?n mod int (length instances) < int (length instances)"
    using assms(1) by simp_all
  moreover have "nat (?n mod int (length instances)) = nat ?n mod length instances"
    using n by (simp add: nat_mod_distrib)
  ultimately show ?thesis
    using assms(1,2)
    by (simp add: RoundRobinStrategy_Select_def Let_def index_at_def)
qed

section \<open>Local cache: size\<close>

lemma cacheInv_New: "cacheInv (NewLocalCache K t)"
  by (simp add: cacheInv_def NewLocalCache_def)

lemma cacheInv_removeElement: "cacheInv l \<Longrightarrow> cacheInv (removeElement l k)"
  by (auto simp: cacheInv_def removeElement_def length_remove1)

lemma MoveToFront_props:
  assumes "distinct xs"
  shows "distinct (MoveToFront xs k)" "set (MoveToFront xs k) = set xs"
    "length (MoveToFront xs k) = length xs"
  using assms
  by (auto simp: MoveToFront_def length_remove1 dest: length_pos_if_in_set)

lemma capacity_removeElement [simp]: "capacity (removeElement l k) = capacity l"
  by (simp add: removeElement_def)

lemma cacheInv_Get: "cacheInv l \<Longrightarrow> cacheInv (snd (LocalCache_Get l key d now))"
proof -
  assume inv: "cacheInv l"
  show ?thesis
  proof (cases "cache l key")
    case None
    with inv show ?thesis by (simp add: LocalCache_Get_def)
  next
    case (Some entry)
    show ?thesis
    proof (cases "expiresAt entry < now")
      case True
      with Some cacheInv_removeElement [OF inv, of key] show ?thesis
        by (simp add: LocalCache_Get_def)
    next
      case False
      from inv have "distinct (evictList l)" by (simp add: cacheInv_def)
      from MoveToFront_props [OF this, of key] inv
      have "cacheInv (l\<lparr>evictList := MoveToFront (evictList l) key\<rparr>)"
        by (simp add: cacheInv_def)
      with Some False show ?thesis
        by (simp add: LocalCache_Get_def Let_def split: sum.split)
    qed
  qed
qed

lemma cacheInv_Exists: "cacheInv l \<Longrightarrow> cacheInv (snd (LocalCache_Exists l key now))"
  by (auto simp: LocalCache_Exists_def cacheInv_removeElement split: option.split)

lemma cacheInv_Delete: "cacheInv l \<Longrightarrow> cacheInv (LocalCache_Delete l key)"
  by (auto simp: LocalCache_Delete_def cacheInv_removeElement split: option.split)

lemma evict_props:
  assumes "cacheInv l"
  shows "cacheInv (evict l)" "capacity (evict l) = capacity l"
    "length (evictList (evict l)) = length (evictList l) - 1"
    "set (evictList (evict l)) \<subseteq> set (evictList l)"
proof -
  show "cacheInv (evict l)"
    using assms by (auto simp: evict_def cacheInv_removeElement split: list.split)
  show "capacity (evict l) = capacity l"
    by (simp add: evict_def split: list.split)
  show "length (evictList (evict l)) = length (evictList l) - 1"
  proof (cases "evictList l = []")
    case True
    then show ?thesis by (simp add: evict_def)
  next
    case False
    then have "last (evictList l) \<in> set (evictList l)" by simp
    moreover from False have "evict l = removeElement l (last (evictList l))"
      by (simp add: evict_def split: list.split)
    ultimately show ?thesis
      by (simp add: removeElement_def length_remove1)
  qed
  show "set (evictList (evict l)) \<subseteq> set (evictList l)"
    by (auto simp: evict_def removeElement_def split: list.split dest: notin_set_remove1)
qed

lemma cacheInv_Set: "cacheInv l \<Longrightarrow> cacheInv (LocalCache_Set l key v expiration now)"
proof -
  assume inv: "cacheInv l"
  show ?thesis
  proof (cases "cache l key")
    case (Some entry)
    from inv have "distinct (evictList l)" by (simp add: cacheInv_def)
    from MoveToFront_props [OF this, of key] inv Some show ?thesis
      by (auto simp: LocalCache_Set_def cacheInv_def)
  next
    case None
    with inv have fresh: "key \<notin> set (evictList l)"
      by (auto simp: cacheInv_def)
    show ?thesis
    proof (cases "sint (capacity l) \<le> int (length (evictList l))")
      case True
      let ?l = "evict l"
      from evict_props [OF inv] inv fresh
      have "cacheInv ?l" "key \<notin> set (evictList ?l)"
        "int (length (evictList ?l)) + 1 \<le> max 1 (sint (capacity ?l))"
        by (auto simp: cacheInv_def)
      then have "cacheInv (?l\<lparr>evictList := key # evictList ?l,
          cache := (cache ?l)(key \<mapsto> \<lparr>entryKey = key, entryValue = v, expiresAt = now + expiration\<rparr>)\<rparr>)"
        by (auto simp: cacheInv_def)
      with None True show ?thesis
        by (simp add: LocalCache_Set_def Let_def)
    next
      case False
      with inv fresh
      have "cacheInv (l\<lparr>evictList := key # evictList l,
          cache := (cache l)(key \<mapsto> \<lparr>entryKey = key, entryValue = v, expiresAt = now + expiration\<rparr>)\<rparr>)"
        by (auto simp: cacheInv_def)
      with None False show ?thesis
        by (simp add: LocalCache_Set_def Let_def)
    qed
  qed
qed

lemma cacheInv_applyOp: "cacheInv l \<Longrightarrow> cacheInv (applyOp l op)"
  by (cases op) (simp_all add: cacheInv_Get cacheInv_Set cacheInv_Delete cacheInv_Exists)

lemma cacheInv_applyOps: "cacheInv l \<Longrightarrow> cacheInv (applyOps l ops)"
  by (induction ops arbitrary: l) (simp_all add: cacheInv_applyOp)

lemma capacity_applyOp: "capacity (applyOp l op) = capacity l"
  by (cases op)
     (auto simp: LocalCache_Get_def LocalCache_Set_def LocalCache_Delete_def
        LocalCache_Exists_def evict_def removeElement_def Let_def
        split: option.split sum.split list.split)

lemma capacity_applyOps: "capacity (applyOps l ops) = capacity l"
  by (induction ops arbitrary: l) (simp_all add: capacity_applyOp)

text \<open>
  C5, as the code has it. After any sequence of \<open>Get\<close>, \<open>Set\<close>, \<open>Delete\<close> and
  \<open>Exists\<close> on a cache built with capacity \<open>K\<close>, the number of entries (the length
  of the list, which is the number of keys of the map) is at most \<open>K\<close>, or at most 1
  when \<open>K\<close> is zero or negative.
\<close>

theorem C5_size_bound:
  "int (length (evictList (applyOps (NewLocalCache K t) ops))) \<le> max 1 (sint K) \<and>
   card (dom (cache (applyOps (NewLocalCache K t) ops))) =
     length (evictList (applyOps (NewLocalCache K t) ops))"
proof -
  let ?l = "applyOps (NewLocalCache K t) ops"
  have inv: "cacheInv ?l"
    by (rule cacheInv_applyOps) (rule cacheInv_New)
  have "capacity ?l = K"
    by (simp add: capacity_applyOps NewLocalCache_def)
  with inv have "int (length (evictList ?l)) \<le> max 1 (sint K)"
    by (simp add: cacheInv_def)
  moreover from inv have "card (dom (cache ?l)) = length (evictList ?l)"
    using distinct_card [of "evictList ?l"] by (simp add: cacheInv_def)
  ultimately show ?thesis by simp
qed

text \<open>C5 as claimed fails at capacity 0: one \<open>Set\<close> leaves one entry.\<close>

theorem C5_capacity_zero_counterexample:
  "\<not> int (length (evictList (applyOps (NewLocalCache 0 0)
        [OpSet ''a'' (GString ''x'') 60 1]))) \<le> sint (0 :: go_int)"
  by (simp add: NewLocalCache_def LocalCache_Set_def evict_def Let_def)

section \<open>Tiered cache: what a local hit returns\<close>

text \<open>
  C3. The remote tier holds the sentinel for a key (written by \<open>RedisCache.Set\<close> with a
  nil value) and the local tier is empty. The first \<open>Get\<close> returns
  \<open>ErrKeyNotFound\<close> and stores the sentinel in the local tier. The next \<open>Get\<close> into a
  \<open>*string\<close> is a local hit that returns no error and the text of the sentinel as
  the value; into a \<open>*bool\<close> it returns \<open>ErrKeyNotFound\<close> only after another command
  to the remote tier.
\<close>

theorem C3_sentinel_hit_is_not_NotFound:
  "(case tieredOver ''user:42'' GNil of
      None \<Rightarrow> False
    | Some m0 \<Rightarrow>
        (let (r1, m1) = MultiLevelCache_Get m0 ''user:42'' (PString '''') 1;
             (r2, m2) = MultiLevelCache_Get m1 ''user:42'' (PString '''') 2;
             (r3, m3) = MultiLevelCache_Get m1 ''user:42'' (PBool False) 2
         in r1 = Inl ErrKeyNotFound \<and>
            localValue m1 ''user:42'' = Some (GString ''<empty>'') \<and>
            r2 = Inr (PString ''<empty>'') \<and>
            remoteRoundTrips m2 = remoteRoundTrips m1 \<and>
            r3 = Inl ErrKeyNotFound \<and>
            remoteRoundTrips m3 = Suc (remoteRoundTrips m1)))"
  by code_simp

text \<open>
  The sibling path has the test the local hit lacks: \<open>RedisCache.Get\<close> reads the
  sentinel as \<open>ErrKeyNotFound\<close>.
\<close>

lemma RedisCache_Get_sentinel:
  "(case NewRedisCache (Some emptyRedis) of
      None \<Rightarrow> False
    | Some r \<Rightarrow>
        fst (RedisCache_Get (snd (RedisCache_Set r ''user:42'' GNil 0 0))
               ''user:42'' (PString '''') 1) = Inl ErrKeyNotFound)"
  by code_simp

text \<open>
  C8. The remote tier holds the JSON text of the string \<open>abc\<close> and the local tier is
  empty. The first \<open>Get\<close> into a \<open>*string\<close> reads the remote tier and returns
  \<open>abc\<close>; it stores the JSON text, quotes included, as the local value. The next
  \<open>Get\<close> is a local hit (no command to the remote tier) and returns that text with
  its quotes, not \<open>abc\<close>.
\<close>

theorem C8_local_hit_returns_the_json_text:
  "(case tieredOver ''user:42'' (GString ''abc'') of
      None \<Rightarrow> False
    | Some m0 \<Rightarrow>
        (let (r1, m1) = MultiLevelCache_Get m0 ''user:42'' (PString '''') 1;
             (r2, m2) = MultiLevelCache_Get m1 ''user:42'' (PString '''') 2
         in localValue m0 ''user:42'' = None \<and>
            r1 = Inr (PString ''abc'') \<and>
            remoteRoundTrips m1 = Suc (remoteRoundTrips m0) \<and>
            localValue m1 ''user:42'' = Some (GString ([dquote] @ ''abc'' @ [dquote])) \<and>
            r2 = Inr (PString ([dquote] @ ''abc'' @ [dquote])) \<and>
            remoteRoundTrips m2 = remoteRoundTrips m1 \<and>
            r2 \<noteq> r1))"
  by code_simp

text \<open>
  The sibling path stores the value itself: after \<open>MultiLevelCache.Set\<close> a \<open>Get\<close> is
  a local hit that returns what was set.
\<close>

lemma MultiLevelCache_Set_then_Get:
  "(case tieredOver ''other'' GNil of
      None \<Rightarrow> False
    | Some m0 \<Rightarrow>
        (let (e, m1) = MultiLevelCache_Set m0 ''user:42'' (GString ''abc'') minute 1;
             (r2, m2) = MultiLevelCache_Get m1 ''user:42'' (PString '''') 2
         in e = None \<and> r2 = Inr (PString ''abc'') \<and>
            remoteRoundTrips m2 = remoteRoundTrips m1))"
  by code_simp


section \<open>Construction\<close>

text \<open>
  C7, as the code has it. No constructor checks its arguments: \<open>NewLocalCache\<close>,
  \<open>NewSlidingWindowLimiter\<close> and \<open>NewCircuitBreaker\<close> return a primitive that carries
  the given capacity, limit, window, thresholds and timeouts whatever their sign, with
  empty state. The only substitution is \<open>DefaultConfig\<close> for a nil \<open>*Config\<close>.
\<close>

theorem C7_constructors_keep_any_configuration:
  "NewLocalCache K t = \<lparr>capacity = K, ttl = t, cache = Map.empty, evictList = []\<rparr> \<and>
   NewSlidingWindowLimiter L W = \<lparr>limit = L, window = W, records = Map.empty\<rparr> \<and>
   failureThreshold (NewCircuitBreaker (Some c)) = FailureThreshold c \<and>
   successThreshold (NewCircuitBreaker (Some c)) = SuccessThreshold c \<and>
   timeout (NewCircuitBreaker (Some c)) = Timeout c \<and>
   resetTimeout (NewCircuitBreaker (Some c)) = ResetTimeout c \<and>
   state (NewCircuitBreaker (Some c)) = Closed \<and>
   NewCircuitBreaker None = NewCircuitBreaker (Some DefaultConfig) \<and>
   DefaultConfig =
     \<lparr>FailureThreshold = 5, Timeout = 60000000000, ResetTimeout = 30000000000,
      SuccessThreshold = 1, ServiceName = ''unknown''\<rparr>"
  by (simp add: NewLocalCache_def NewSlidingWindowLimiter_def NewCircuitBreaker_def
      DefaultConfig_def second_def)

text \<open>
  C7 as claimed fails: a cache of capacity 0, a limiter of limit 0 and window 0 and a
  breaker with thresholds 0 and a negative reset timeout are all constructed, and are
  used as they are: the cache stores an entry, the limiter rejects its first call, the
  breaker trips on the first failure.
\<close>

theorem C7_zero_configuration_counterexample:
  "capacity (NewLocalCache 0 0) = 0 \<and>
   evictList (LocalCache_Set (NewLocalCache 0 0) ''k'' (GBool True) 0 0) = [''k''] \<and>
   limit (NewSlidingWindowLimiter 0 0) = 0 \<and>
   window (NewSlidingWindowLimiter 0 0) = 0 \<and>
   \<not> fst (AllowWithKey (NewSlidingWindowLimiter 0 0) ''k'' 0) \<and>
   failureThreshold (NewCircuitBreaker (Some
     \<lparr>FailureThreshold = 0, Timeout = 0, ResetTimeout = - 1, SuccessThreshold = 0,
      ServiceName = ''db''\<rparr>)) = 0 \<and>
   state (fst (snd (Execute (NewCircuitBreaker (Some
     \<lparr>FailureThreshold = 0, Timeout = 0, ResetTimeout = - 1, SuccessThreshold = 0,
      ServiceName = ''db''\<rparr>)) (Pair (Some ''down'')) () 1 2 3))) = Open"
  by (simp add: NewLocalCache_def LocalCache_Set_def evict_def NewSlidingWindowLimiter_def
      AllowWithKey_def recordsOf_def NewCircuitBreaker_def Execute_def canExecute_def
      updateState_def Let_def word_sle_eq)

end
